theory Spec2Isabelle
  imports Main "HOL-Library.AList"
begin

section \<open>JavaScript values, errors and completions\<close>

text \<open>
  The values the two stores handle: keys are numbers or strings, documents are objects
  (a list of fields), and a lookup that misses yields \<open>undefined\<close>. Numbers are the
  integers; objects are compared field by field. \<open>JArr\<close> is an array decoded from JSON;
  the arrays the in-memory store hands out live on a heap, below, where their identity
  matters.
\<close>

datatype jsval =
    Undefined
  | Null
  | JBool bool
  | JNum int
  | JStr string
  | JArr "jsval list"
  | JObj "(string \<times> jsval) list"

text \<open>
  What \<open>response.json()\<close> of the fetch API does with the body: it returns a promise
  that resolves with the decoded value or rejects with a SyntaxError when the body is not
  JSON. \<open>JsonThrows\<close> stands for a call that raises synchronously, the only case the
  \<open>try\<close>/\<open>catch\<close> of \<open>checkStatus\<close> can see.
\<close>

datatype json_result = JsonValue jsval | JsonRejects | JsonThrows

text \<open>
  The Response of the fetch API, with the URL it was fetched from and its headers.
\<close>

record response =
  status :: int
  statusText :: string
  url_r :: string
  headers_r :: "(string \<times> string) list"
  json :: json_result
  text_r :: string

text \<open>
  \<open>DoesNotExist key\<close> is the class of db-plumbing-map (its \<open>key\<close> field), \<open>Error msg\<close>
  the built-in one; the second argument is the \<open>response\<close> field \<open>checkStatus\<close> attaches.
\<close>

datatype error =
    DoesNotExist jsval "response option"
  | Error string "response option"
  | TypeError
  | SyntaxError

text \<open>A promise that has settled, and a call that returns a promise or throws.\<close>

datatype 'a promise = Resolved 'a | Rejected error

datatype 'a outcome = Resolve 'a | Reject error | Throw error

text \<open>\<open>object.uid\<close>: reading a property of \<open>undefined\<close> or \<open>null\<close> throws; a
  primitive has no \<open>uid\<close>.\<close>

fun dot_uid :: "jsval \<Rightarrow> error + jsval" where
  "dot_uid Undefined = Inl TypeError"
| "dot_uid Null = Inl TypeError"
| "dot_uid (JObj fs) = Inr (case map_of fs ''uid'' of None \<Rightarrow> Undefined | Some v \<Rightarrow> v)"
| "dot_uid (JBool b) = Inr Undefined"
| "dot_uid (JNum n) = Inr Undefined"
| "dot_uid (JStr s) = Inr Undefined"
| "dot_uid (JArr xs) = Inr Undefined"

text \<open>The operand of \<open>!\<close> is converted to a boolean.\<close>

fun truthy :: "jsval \<Rightarrow> bool" where
  "truthy Undefined = False"
| "truthy Null = False"
| "truthy (JBool b) = b"
| "truthy (JNum n) = (n \<noteq> 0)"
| "truthy (JStr s) = (s \<noteq> [])"
| "truthy (JArr xs) = True"
| "truthy (JObj fs) = True"

section \<open>ES6 Map and arrays on a heap\<close>

text \<open>
  A Map keeps its entries in insertion order: \<open>set\<close> on a present key replaces the value
  in place, on an absent key it appends.
\<close>

type_synonym jsmap = "(jsval \<times> jsval) list"

definition Map_get :: "jsmap \<Rightarrow> jsval \<Rightarrow> jsval" where
  "Map_get m k = (case map_of m k of None \<Rightarrow> Undefined | Some v \<Rightarrow> v)"

definition Map_has :: "jsmap \<Rightarrow> jsval \<Rightarrow> bool" where
  "Map_has m k = (map_of m k \<noteq> None)"

definition Map_set :: "jsmap \<Rightarrow> jsval \<Rightarrow> jsval \<Rightarrow> jsmap" where
  "Map_set m k v = AList.update k v m"

definition Map_delete :: "jsmap \<Rightarrow> jsval \<Rightarrow> jsmap" where
  "Map_delete m k = AList.delete k m"

definition Map_values :: "jsmap \<Rightarrow> jsval list" where
  "Map_values m = map snd m"

text \<open>
  Maps and arrays are objects: the store holds a reference to its Map, and \<open>all\<close> hands a
  reference to an array to the caller. An address is an index into the heap; a new object
  takes the next index.
\<close>

datatype cell = MapCell jsmap | ArrCell "jsval list"

type_synonym heap = "cell list"

definition alloc :: "heap \<Rightarrow> cell \<Rightarrow> nat \<times> heap" where
  "alloc h c = (length h, h @ [c])"

definition map_at :: "heap \<Rightarrow> nat \<Rightarrow> jsmap option" where
  "map_at h a =
     (if a < length h then (case h ! a of MapCell m \<Rightarrow> Some m | ArrCell xs \<Rightarrow> None) else None)"

definition arr_at :: "heap \<Rightarrow> nat \<Rightarrow> jsval list option" where
  "arr_at h a =
     (if a < length h then (case h ! a of ArrCell xs \<Rightarrow> Some xs | MapCell m \<Rightarrow> None) else None)"

section \<open>The in-memory store (db-plumbing-map)\<close>

text \<open>An index is a named function \<open>(value, item) => boolean\<close>.\<close>

record index =
  name :: string
  call :: "jsval \<Rightarrow> jsval \<Rightarrow> bool"

record 'ty store =
  idMap :: nat
  key :: "jsval \<Rightarrow> jsval"
  comparator :: "jsval \<Rightarrow> jsval \<Rightarrow> int"
  sorted_flag :: bool
  type :: 'ty

text \<open>The constructor, called with all three arguments.\<close>

definition Store :: "'ty \<Rightarrow> (jsval \<Rightarrow> jsval) \<Rightarrow> (jsval \<Rightarrow> jsval \<Rightarrow> int) \<Rightarrow> heap
    \<Rightarrow> 'ty store \<times> heap" where
  "Store ty k cmp h =
     (let (a, h') = alloc h (MapCell [])
      in (\<lparr>idMap = a, key = k, comparator = cmp, sorted_flag = True, type = ty\<rparr>, h'))"

text \<open>
  The less-than of the language is a parameter \<open>lt\<close> of the default comparator.
\<close>

definition defaultComparator ::
    "(jsval \<Rightarrow> jsval \<Rightarrow> bool) \<Rightarrow> (jsval \<Rightarrow> jsval) \<Rightarrow> jsval \<Rightarrow> jsval \<Rightarrow> int" where
  "defaultComparator lt k a b =
     (if lt (k a) (k b) then - 1 else if lt (k b) (k a) then 1 else 0)"

definition logValue :: "jsval list \<Rightarrow> jsval" where
  "logValue e = (if 1 < length e then e ! 1 else Undefined)"

definition find_map :: "jsval \<Rightarrow> 'ty store \<Rightarrow> heap \<Rightarrow> jsval outcome \<times> 'ty store \<times> heap" where
  "find_map k s h =
     (case map_at h (idMap s) of
        None \<Rightarrow> (Throw TypeError, s, h)
      | Some m \<Rightarrow>
          (let val = Map_get m k
           in if val = Undefined then (Reject (DoesNotExist k None), s, h)
              else (Resolve val, s, h)))"

text \<open>The getter \<open>all\<close> resolves with a new array (its address).\<close>

definition all_map :: "'ty store \<Rightarrow> heap \<Rightarrow> nat outcome \<times> 'ty store \<times> heap" where
  "all_map s h =
     (case map_at h (idMap s) of
        None \<Rightarrow> (Throw TypeError, s, h)
      | Some m \<Rightarrow>
          (let (a, h') = alloc h (ArrCell (Map_values m)) in (Resolve a, s, h')))"

text \<open>\<open>Array.prototype.filter\<close> builds a second array.\<close>

definition findAll_map :: "index \<Rightarrow> jsval \<Rightarrow> 'ty store \<Rightarrow> heap
    \<Rightarrow> nat outcome \<times> 'ty store \<times> heap" where
  "findAll_map index v s h =
     (case all_map s h of
        (Resolve a, s1, h1) \<Rightarrow>
          (case arr_at h1 a of
             None \<Rightarrow> (Reject TypeError, s1, h1)
           | Some xs \<Rightarrow>
               (let (b, h2) = alloc h1 (ArrCell (filter (\<lambda>item. call index v item) xs))
                in (Resolve b, s1, h2)))
      | (Reject e, s1, h1) \<Rightarrow> (Reject e, s1, h1)
      | (Throw e, s1, h1) \<Rightarrow> (Throw e, s1, h1))"

definition update_map :: "jsval \<Rightarrow> 'ty store \<Rightarrow> heap \<Rightarrow> jsval outcome \<times> 'ty store \<times> heap" where
  "update_map object s h =
     (case dot_uid object of
        Inl e \<Rightarrow> (Throw e, s, h)
      | Inr uid \<Rightarrow>
          (case map_at h (idMap s) of
             None \<Rightarrow> (Throw TypeError, s, h)
           | Some m \<Rightarrow>
               (let s' = (if \<not> Map_has m uid then s\<lparr>sorted_flag := False\<rparr> else s)
                in (Resolve (JBool True), s', h[idMap s' := MapCell (Map_set m uid object)]))))"

text \<open>The test of \<open>remove\<close> is \<open>(! this.idMap.get(key)) === undefined\<close>.\<close>

definition remove_map :: "jsval \<Rightarrow> 'ty store \<Rightarrow> heap \<Rightarrow> jsval outcome \<times> 'ty store \<times> heap" where
  "remove_map k s h =
     (case map_at h (idMap s) of
        None \<Rightarrow> (Throw TypeError, s, h)
      | Some m \<Rightarrow>
          (if JBool (\<not> truthy (Map_get m k)) = Undefined
           then (Resolve (JBool True), s, h[idMap s := MapCell (Map_delete m k)])
           else (Resolve (JBool False), s, h)))"

text \<open>
  \<open>for (let item in items)\<close> runs over the property names of the array, the strings
  \<open>"0"\<close>, \<open>"1"\<close>, ... , not over its elements.
\<close>

fun decimal :: "nat \<Rightarrow> string" where
  "decimal n =
     (if n < 10 then [char_of (48 + n)] else decimal (n div 10) @ [char_of (48 + n mod 10)])"

declare decimal.simps [simp del]

definition for_in_names :: "jsval list \<Rightarrow> jsval list" where
  "for_in_names items = map (\<lambda>i. JStr (decimal i)) [0..<length items]"

fun delete_each :: "jsval list \<Rightarrow> jsmap \<Rightarrow> error + jsmap" where
  "delete_each [] m = Inr m"
| "delete_each (item # rest) m =
     (case dot_uid item of
        Inl e \<Rightarrow> Inl e
      | Inr uid \<Rightarrow> delete_each rest (Map_delete m uid))"

definition removeAll_map :: "index \<Rightarrow> jsval \<Rightarrow> 'ty store \<Rightarrow> heap
    \<Rightarrow> jsval outcome \<times> 'ty store \<times> heap" where
  "removeAll_map index v s h =
     (case findAll_map index v s h of
        (Resolve b, s1, h1) \<Rightarrow>
          (case arr_at h1 b of
             None \<Rightarrow> (Reject TypeError, s1, h1)
           | Some items \<Rightarrow>
               (if length items = 0 then (Resolve (JBool False), s1, h1)
                else
                  (case map_at h1 (idMap s1) of
                     None \<Rightarrow> (Reject TypeError, s1, h1)
                   | Some m \<Rightarrow>
                       (case delete_each (for_in_names items) m of
                          Inl e \<Rightarrow> (Reject e, s1, h1)
                        | Inr m' \<Rightarrow> (Resolve (JBool True), s1, h1[idMap s1 := MapCell m'])))))
      | (Reject e, s1, h1) \<Rightarrow> (Reject e, s1, h1)
      | (Throw e, s1, h1) \<Rightarrow> (Throw e, s1, h1))"

text \<open>
  The patch comes from the typed-patch library: its \<open>patch\<close> method receives the Map and
  the options and returns the patched collection or throws, and may change the heap as it
  likes. \<open>data\<close> is the value of its property of that name: the array of the entries for
  a patch of a Map or an array, another value for other operations and \<open>undefined\<close> for
  the operation that changes nothing. \<open>toJSON\<close> is what its method of that name returns.
\<close>

record 'ty patch_options =
  value_fn :: "jsval list \<Rightarrow> jsval"
  collectionElementType :: 'ty
  sorted_opt :: bool

record 'ty patch =
  patch_fn :: "heap \<Rightarrow> nat \<Rightarrow> 'ty patch_options \<Rightarrow> (error + nat) \<times> heap"
  data :: jsval
  toJSON :: jsval

text \<open>\<open>x.length\<close>: it throws on \<open>undefined\<close> and \<open>null\<close>; arrays and strings have one.\<close>

fun dot_length :: "jsval \<Rightarrow> error + jsval" where
  "dot_length Undefined = Inl TypeError"
| "dot_length Null = Inl TypeError"
| "dot_length (JArr xs) = Inr (JNum (int (length xs)))"
| "dot_length (JStr s) = Inr (JNum (int (length s)))"
| "dot_length (JBool b) = Inr Undefined"
| "dot_length (JNum n) = Inr Undefined"
| "dot_length (JObj fs) = Inr (case map_of fs ''length'' of None \<Rightarrow> Undefined | Some v \<Rightarrow> v)"

text \<open>
  \<open>bulk\<close> assigns the collection and the flag first and reads \<open>patch.data.length\<close>
  for its result afterwards.
\<close>

definition bulk_map :: "'ty patch \<Rightarrow> 'ty store \<Rightarrow> heap \<Rightarrow> jsval outcome \<times> 'ty store \<times> heap" where
  "bulk_map p s h =
     (case patch_fn p h (idMap s)
             \<lparr>value_fn = logValue, collectionElementType = type s, sorted_opt = sorted_flag s\<rparr> of
        (Inl e, h') \<Rightarrow> (Throw e, s, h')
      | (Inr a, h') \<Rightarrow>
          (let s' = s\<lparr>idMap := a, sorted_flag := True\<rparr>
           in case dot_length (data p) of
                Inl e \<Rightarrow> (Throw e, s', h')
              | Inr n \<Rightarrow> (Resolve n, s', h')))"

section \<open>Sequences of calls and the order of the collection\<close>

text \<open>The items are in the order of a comparator when no item compares above a later one.\<close>

definition ordered :: "(jsval \<Rightarrow> jsval \<Rightarrow> int) \<Rightarrow> jsval list \<Rightarrow> bool" where
  "ordered cmp xs = sorted_wrt (\<lambda>a b. cmp a b \<le> 0) xs"

definition sorted_inv :: "'ty store \<Rightarrow> heap \<Rightarrow> bool" where
  "sorted_inv s h =
     (sorted_flag s \<longrightarrow>
        (case map_at h (idMap s) of
           None \<Rightarrow> False
         | Some m \<Rightarrow> ordered (comparator s) (Map_values m)))"

datatype 'ty call =
    CallFind jsval
  | GetAll
  | CallFindAll index jsval
  | CallUpdate jsval
  | CallRemove jsval
  | CallRemoveAll index jsval
  | CallBulk "'ty patch"

fun exec :: "'ty call \<Rightarrow> 'ty store \<times> heap \<Rightarrow> 'ty store \<times> heap" where
  "exec (CallFind k) (s, h) = snd (find_map k s h)"
| "exec GetAll (s, h) = snd (all_map s h)"
| "exec (CallFindAll ix v) (s, h) = snd (findAll_map ix v s h)"
| "exec (CallUpdate d) (s, h) = snd (update_map d s h)"
| "exec (CallRemove k) (s, h) = snd (remove_map k s h)"
| "exec (CallRemoveAll ix v) (s, h) = snd (removeAll_map ix v s h)"
| "exec (CallBulk p) (s, h) = snd (bulk_map p s h)"

definition run :: "'ty call list \<Rightarrow> 'ty store \<times> heap \<Rightarrow> 'ty store \<times> heap" where
  "run cs sh = fold exec cs sh"

text \<open>
  The patch engine returns a Map in the order of the comparator, whatever it is called on.
\<close>

definition engine_sorted :: "(jsval \<Rightarrow> jsval \<Rightarrow> int) \<Rightarrow> 'ty patch \<Rightarrow> bool" where
  "engine_sorted cmp p =
     (\<forall>h a opts. case patch_fn p h a opts of
        (Inr a', h') \<Rightarrow>
          (case map_at h' a' of None \<Rightarrow> False | Some m \<Rightarrow> ordered cmp (Map_values m))
      | (Inl e, h') \<Rightarrow> True)"

text \<open>
  The comparator compares \<open>x\<close> with the new document as it compares it with the old one.
\<close>

definition alike :: "(jsval \<Rightarrow> jsval \<Rightarrow> int) \<Rightarrow> jsval \<Rightarrow> jsval \<Rightarrow> jsval \<Rightarrow> bool" where
  "alike cmp old new x = (cmp x old = cmp x new \<and> cmp old x = cmp new x)"

text \<open>
  The two conditions on a call, in the state it is made in. For \<open>bulk\<close>: the call of the
  patch engine that \<open>bulk\<close> makes returns a Map in the order of the comparator. For
  \<open>update\<close> of a key that is present while the flag is set: the comparator compares
  every stored document with the new document as with the one it replaces. A sequence of
  calls is admissible from a state when each call meets its condition where it is made.
\<close>

fun step_ok :: "'ty call \<Rightarrow> 'ty store \<times> heap \<Rightarrow> bool" where
  "step_ok (CallBulk p) (s, h) =
     (case patch_fn p h (idMap s)
             \<lparr>value_fn = logValue, collectionElementType = type s, sorted_opt = sorted_flag s\<rparr> of
        (Inl e, h') \<Rightarrow> False
      | (Inr a, h') \<Rightarrow>
          (case map_at h' a of
             None \<Rightarrow> False
           | Some m \<Rightarrow> ordered (comparator s) (Map_values m)))"
| "step_ok (CallUpdate d) (s, h) =
     (case dot_uid d of
        Inl e \<Rightarrow> True
      | Inr u \<Rightarrow>
          (case map_at h (idMap s) of
             None \<Rightarrow> True
           | Some m \<Rightarrow>
               (if sorted_flag s \<and> Map_has m u
                then list_all (alike (comparator s) (Map_get m u) d) (Map_values m)
                else True)))"
| "step_ok (CallFind k) (s, h) = True"
| "step_ok GetAll (s, h) = True"
| "step_ok (CallFindAll ix v) (s, h) = True"
| "step_ok (CallRemove k) (s, h) = True"
| "step_ok (CallRemoveAll ix v) (s, h) = True"

fun admissible :: "'ty call list \<Rightarrow> 'ty store \<times> heap \<Rightarrow> bool" where
  "admissible [] sh = True"
| "admissible (c # cs) sh = (step_ok c sh \<and> admissible cs (exec c sh))"

section \<open>Documents, indexes and patches of the test suites\<close>

text \<open>\<open>new Simple(uid, a, b)\<close> and the index \<open>byA\<close> of the tests (on documents).\<close>

definition Simple :: "int \<Rightarrow> string \<Rightarrow> string \<Rightarrow> jsval" where
  "Simple u a b = JObj [(''uid'', JNum u), (''a'', JStr a), (''b'', JStr b)]"

definition byA :: index where
  "byA = \<lparr>name = ''byA'',
          call = (\<lambda>a simple. case simple of JObj fs \<Rightarrow> map_of fs ''a'' = Some a | _ \<Rightarrow> False)\<rparr>"

text \<open>The default key \<open>e => e.uid\<close> on documents, and the key \<open>object => object.key\<close> of the README.\<close>

definition uid_key :: "jsval \<Rightarrow> jsval" where
  "uid_key e = (case dot_uid e of Inl x \<Rightarrow> Undefined | Inr u \<Rightarrow> u)"

definition key_field :: "jsval \<Rightarrow> jsval" where
  "key_field d =
     (case d of
        JObj fs \<Rightarrow> (case map_of fs ''key'' of None \<Rightarrow> Undefined | Some v \<Rightarrow> v)
      | _ \<Rightarrow> Undefined)"

definition sailor :: jsval where
  "sailor = JObj [(''key'', JNum 1), (''a'', JStr ''hello''), (''b'', JStr ''sailor'')]"

text \<open>Less-than on numbers, and the default comparator over it.\<close>

definition less_num :: "jsval \<Rightarrow> jsval \<Rightarrow> bool" where
  "less_num a b = (case (a, b) of (JNum x, JNum y) \<Rightarrow> x < y | _ \<Rightarrow> False)"

definition uid_order :: "jsval \<Rightarrow> jsval \<Rightarrow> int" where
  "uid_order = defaultComparator less_num uid_key"

text \<open>A comparator on another field, \<open>rank\<close>.\<close>

definition Ranked :: "int \<Rightarrow> int \<Rightarrow> jsval" where
  "Ranked u r = JObj [(''uid'', JNum u), (''rank'', JNum r)]"

definition rank_key :: "jsval \<Rightarrow> jsval" where
  "rank_key d =
     (case d of
        JObj fs \<Rightarrow> (case map_of fs ''rank'' of None \<Rightarrow> Undefined | Some v \<Rightarrow> v)
      | _ \<Rightarrow> Undefined)"

definition rank_order :: "jsval \<Rightarrow> jsval \<Rightarrow> int" where
  "rank_order = defaultComparator less_num rank_key"

text \<open>
  Four patches: one whose engine throws, one that puts a whole collection in place of the
  old one, one that replaces the document of one key in the Map it is given, and the
  operation that changes nothing (\<open>Ops.NOP\<close>, which has no \<open>data\<close>).
\<close>

definition failing_patch :: "unit patch" where
  "failing_patch =
     \<lparr>patch_fn = (\<lambda>h a opts. (Inl (Error ''cannot patch'' None), h)),
      data = JArr [], toJSON = Null\<rparr>"

definition snapshot_patch :: "jsmap \<Rightarrow> unit patch" where
  "snapshot_patch m =
     \<lparr>patch_fn = (\<lambda>h a opts. (Inr (length h), h @ [MapCell m])),
      data = JArr (map (\<lambda>(k, v). JArr [k, v]) m), toJSON = Null\<rparr>"

definition replace_patch :: "jsval \<Rightarrow> jsval \<Rightarrow> unit patch" where
  "replace_patch k v =
     \<lparr>patch_fn =
        (\<lambda>h a opts. case map_at h a of
           None \<Rightarrow> (Inl TypeError, h)
         | Some m \<Rightarrow> (Inr a, h[a := MapCell (Map_set m k v)])),
      data = JArr [JArr [k, v]], toJSON = Null\<rparr>"

definition nop_patch :: "unit patch" where
  "nop_patch = \<lparr>patch_fn = (\<lambda>h a opts. (Inr a, h)), data = Undefined, toJSON = Null\<rparr>"

section \<open>The REST client and store (db-plumbing-rest)\<close>

text \<open>
  A plain object is the list of its properties in insertion order; a property of a
  request's options is a string or the Headers object. \<open>Object.assign\<close> copies the
  properties of the source onto the target, one after the other.
\<close>

datatype propval = PStr string | PHeaders "(string \<times> string) list"

type_synonym options_obj = "(string \<times> propval) list"

definition Object_assign :: "('k \<times> 'v) list \<Rightarrow> ('k \<times> 'v) list \<Rightarrow> ('k \<times> 'v) list" where
  "Object_assign target source = fold (\<lambda>(k, v) t. AList.update k v t) source target"

definition DEFAULT_OPTIONS :: "(string \<times> options_obj) list" where
  "DEFAULT_OPTIONS =
     [(''GET'', [(''method'', PStr ''GET''), (''mode'', PStr ''cors''), (''cache'', PStr ''default'')]),
      (''DELETE'', [(''method'', PStr ''DELETE''), (''mode'', PStr ''cors'')]),
      (''POST'', [(''method'', PStr ''POST''), (''model'', PStr ''cors'')]),
      (''PUT'', [(''method'', PStr ''PUT''), (''model'', PStr ''cors'')])]"

definition DEFAULT_HEADERS :: "(string \<times> string) list" where
  "DEFAULT_HEADERS = [(''Content-Type'', ''application/json'')]"

text \<open>
  \<open>new Request(url, init)\<close> belongs to the fetch API; the model keeps its two arguments.
\<close>

record request =
  url :: string
  init :: options_obj

text \<open>
  What the module takes from its environment: \<open>encodeURIComponent\<close>, \<open>JSON.stringify\<close>,
  \<open>fetch\<close> (the response the server gives to a request, or a network failure) and the
  call \<open>debug.log(...)\<close> of \<open>_doDelete\<close>, which returns (\<open>None\<close>) or throws according to
  the debug library. The other debug calls only print.
\<close>

record env =
  encodeURIComponent :: "jsval \<Rightarrow> string"
  JSON_stringify :: "jsval \<Rightarrow> string"
  fetch :: "request \<Rightarrow> response promise"
  debug_log :: "error option"

record client =
  base_url :: string
  options :: "(string \<times> options_obj) list"
  headers :: "(string \<times> string) list"

definition Client :: "string \<Rightarrow> (string \<times> string) list \<Rightarrow> (string \<times> options_obj) list \<Rightarrow> client" where
  "Client b hs os =
     \<lparr>base_url = b,
      options = Object_assign (Object_assign [] DEFAULT_OPTIONS) os,
      headers = Object_assign (Object_assign [] DEFAULT_HEADERS) hs\<rparr>"

definition updateHeaders :: "(string \<times> string) list \<Rightarrow> client \<Rightarrow> client" where
  "updateHeaders hs c = c\<lparr>headers := Object_assign (headers c) hs\<rparr>"

text \<open>\<open>this.options.GET\<close> and its siblings; \<open>Object.assign\<close> skips an undefined source.\<close>

definition options_for :: "client \<Rightarrow> string \<Rightarrow> options_obj" where
  "options_for c m = (case map_of (options c) m of None \<Rightarrow> [] | Some ob \<Rightarrow> ob)"

definition addHeaders :: "client \<Rightarrow> options_obj \<Rightarrow> options_obj" where
  "addHeaders c req = AList.update ''headers'' (PHeaders (headers c)) req"

definition addBody :: "env \<Rightarrow> options_obj \<Rightarrow> jsval \<Rightarrow> options_obj" where
  "addBody ev req body =
     AList.update ''body''
       (PStr (case body of JStr b \<Rightarrow> b | _ \<Rightarrow> JSON_stringify ev body)) req"

definition getGetRequest :: "client \<Rightarrow> string \<Rightarrow> request" where
  "getGetRequest c u =
     \<lparr>url = base_url c @ u, init = addHeaders c (Object_assign [] (options_for c ''GET''))\<rparr>"

definition getDeleteRequest :: "client \<Rightarrow> string \<Rightarrow> request" where
  "getDeleteRequest c u =
     \<lparr>url = base_url c @ u, init = addHeaders c (Object_assign [] (options_for c ''DELETE''))\<rparr>"

definition getPostRequest :: "env \<Rightarrow> client \<Rightarrow> string \<Rightarrow> jsval \<Rightarrow> request" where
  "getPostRequest ev c u obj =
     \<lparr>url = base_url c @ u,
      init = addBody ev (addHeaders c (Object_assign [] (options_for c ''POST''))) obj\<rparr>"

definition getPutRequest :: "env \<Rightarrow> client \<Rightarrow> string \<Rightarrow> jsval \<Rightarrow> request" where
  "getPutRequest ev c u obj =
     \<lparr>url = base_url c @ u,
      init = addBody ev (addHeaders c (Object_assign [] (options_for c ''PUT''))) obj\<rparr>"

text \<open>
  \<open>checkStatus\<close>, with the lines it passes to \<open>console.warn\<close>. Under status 200 it
  returns whatever \<open>response.json()\<close> returns, a promise; the \<open>catch\<close> runs only when
  that call itself throws.
\<close>

definition checkStatus :: "response \<Rightarrow> jsval outcome \<times> string list list" where
  "checkStatus r =
     (if status r = 204 then (Resolve (JBool True), [])
      else if status r = 200 then
        (case json r of
           JsonValue v \<Rightarrow> (Resolve v, [])
         | JsonRejects \<Rightarrow> (Reject SyntaxError, [])
         | JsonThrows \<Rightarrow>
             (Throw (Error ''unknown response from server'' None),
              [[''ServiceClient.checkStatus - couldn't parse'', text_r r]]))
      else
        (Throw
           (if status r = 404 then DoesNotExist (JStr (statusText r)) (Some r)
            else Error (statusText r) (Some r)),
         [[''checkStatus'', statusText r]]))"

text \<open>
  \<open>promise.then(f)\<close>: a rejection passes by; what \<open>f\<close> returns or the promise it
  returns settles the result, and what it throws rejects it.
\<close>

definition settle :: "'a outcome \<Rightarrow> 'a promise" where
  "settle r = (case r of Resolve x \<Rightarrow> Resolved x | Reject e \<Rightarrow> Rejected e | Throw e \<Rightarrow> Rejected e)"

definition then_p :: "'a promise \<Rightarrow> ('a \<Rightarrow> 'b outcome) \<Rightarrow> 'b promise" where
  "then_p p f = (case p of Rejected e \<Rightarrow> Rejected e | Resolved x \<Rightarrow> settle (f x))"

definition then_checkStatus :: "response promise \<Rightarrow> jsval promise \<times> string list list" where
  "then_checkStatus p =
     (case p of
        Rejected e \<Rightarrow> (Rejected e, [])
      | Resolved r \<Rightarrow> (settle (fst (checkStatus r)), snd (checkStatus r)))"

definition unsettle :: "'a promise \<Rightarrow> 'a outcome" where
  "unsettle p = (case p of Resolved x \<Rightarrow> Resolve x | Rejected e \<Rightarrow> Reject e)"

text \<open>
  The state outside the stores: the clients (a Store holds a reference to its client, an
  index into this list), the requests given to \<open>fetch\<close> so far, and the console.
\<close>

record world =
  clients :: "client list"
  sent :: "request list"
  warnings :: "string list list"

text \<open>The call \<open>c.updateHeaders(hs)\<close> on the client at address \<open>a\<close>.\<close>

definition call_updateHeaders :: "nat \<Rightarrow> (string \<times> string) list \<Rightarrow> world \<Rightarrow> world" where
  "call_updateHeaders a hs w = w\<lparr>clients := (clients w)[a := updateHeaders hs (clients w ! a)]\<rparr>"

record jstype =
  fromJSON :: "jsval \<Rightarrow> error + jsval"

type_synonym index_map = "(string \<times> (jsval \<Rightarrow> string)) list"

definition addSimpleField :: "env \<Rightarrow> index \<Rightarrow> string \<Rightarrow> index_map \<Rightarrow> index_map" where
  "addSimpleField ev ix field im =
     AList.update (name ix)
       (\<lambda>v. encodeURIComponent ev (JStr field) @ ''='' @ encodeURIComponent ev v) im"

record rest_store =
  client :: nat
  endpoint :: string
  type_rest :: jstype
  index_map :: index_map

definition Store_rest :: "nat \<Rightarrow> string \<Rightarrow> jstype \<Rightarrow> index_map option \<Rightarrow> rest_store" where
  "Store_rest c ep ty im =
     \<lparr>client = c, endpoint = ep, type_rest = ty,
      index_map = (case im of None \<Rightarrow> [] | Some m \<Rightarrow> m)\<rparr>"

definition getStore :: "nat \<Rightarrow> string \<Rightarrow> jstype \<Rightarrow> index_map option \<Rightarrow> rest_store" where
  "getStore this ep ty im = Store_rest this ep ty im"

definition fetch_with :: "env \<Rightarrow> request \<Rightarrow> world \<Rightarrow> jsval promise \<times> world" where
  "fetch_with ev req w =
     (let (p, ws) = then_checkStatus (fetch ev req)
      in (p, w\<lparr>sent := sent w @ [req], warnings := warnings w @ ws\<rparr>))"

definition doGet :: "env \<Rightarrow> rest_store \<Rightarrow> string \<Rightarrow> (jsval \<Rightarrow> jsval outcome) \<Rightarrow> world
    \<Rightarrow> jsval outcome \<times> world" where
  "doGet ev st u resultmap w =
     (if client st < length (clients w) then
        (let request = getGetRequest (clients w ! client st) u;
             (p, w') = fetch_with ev request w
         in (unsettle (then_p p resultmap), w'))
      else (Throw TypeError, w))"

definition doPost :: "env \<Rightarrow> rest_store \<Rightarrow> string \<Rightarrow> jsval \<Rightarrow> world \<Rightarrow> jsval outcome \<times> world" where
  "doPost ev st u object w =
     (if client st < length (clients w) then
        (let request = getPostRequest ev (clients w ! client st) u object;
             (p, w') = fetch_with ev request w
         in (unsettle p, w'))
      else (Throw TypeError, w))"

definition doPut :: "env \<Rightarrow> rest_store \<Rightarrow> string \<Rightarrow> jsval \<Rightarrow> world \<Rightarrow> jsval outcome \<times> world" where
  "doPut ev st u object w =
     (if client st < length (clients w) then
        (let request = getPutRequest ev (clients w ! client st) u object;
             (p, w') = fetch_with ev request w
         in (unsettle p, w'))
      else (Throw TypeError, w))"

definition doDelete :: "env \<Rightarrow> rest_store \<Rightarrow> string \<Rightarrow> world \<Rightarrow> jsval outcome \<times> world" where
  "doDelete ev st u w =
     (case debug_log ev of
        Some e \<Rightarrow> (Throw e, w)
      | None \<Rightarrow>
          (if client st < length (clients w) then
             (let (p, w') = fetch_with ev (getDeleteRequest (clients w ! client st) u) w
              in (unsettle p, w'))
           else (Throw TypeError, w)))"

definition singleResourceURI :: "env \<Rightarrow> rest_store \<Rightarrow> jsval \<Rightarrow> string" where
  "singleResourceURI ev st uid = endpoint st @ ''/items/'' @ encodeURIComponent ev uid"

text \<open>Calling an index that the map does not hold throws.\<close>

definition multipleResourceURI :: "rest_store \<Rightarrow> string \<Rightarrow> index \<Rightarrow> jsval \<Rightarrow> error + string" where
  "multipleResourceURI st op ix v =
     (case map_of (index_map st) (name ix) of
        None \<Rightarrow> Inl TypeError
      | Some enc \<Rightarrow> Inr (endpoint st @ ''/'' @ op @ ''/'' @ name ix @ ''?'' @ enc v))"

definition bulkResourceURI :: "rest_store \<Rightarrow> string" where
  "bulkResourceURI st = endpoint st @ ''/bulk''"

definition find_rest :: "env \<Rightarrow> jsval \<Rightarrow> rest_store \<Rightarrow> world \<Rightarrow> jsval outcome \<times> world" where
  "find_rest ev k st w =
     doGet ev st (singleResourceURI ev st k)
       (\<lambda>result. case fromJSON (type_rest st) result of Inl e \<Rightarrow> Throw e | Inr x \<Rightarrow> Resolve x) w"

fun map_fromJSON :: "jstype \<Rightarrow> jsval list \<Rightarrow> error + jsval list" where
  "map_fromJSON ty [] = Inr []"
| "map_fromJSON ty (item # items) =
     (case fromJSON ty item of
        Inl e \<Rightarrow> Inl e
      | Inr x \<Rightarrow> (case map_fromJSON ty items of Inl e \<Rightarrow> Inl e | Inr xs \<Rightarrow> Inr (x # xs)))"

definition findAll_rest :: "env \<Rightarrow> index \<Rightarrow> jsval \<Rightarrow> rest_store \<Rightarrow> world \<Rightarrow> jsval outcome \<times> world" where
  "findAll_rest ev ix v st w =
     (case multipleResourceURI st ''findAll'' ix v of
        Inl e \<Rightarrow> (Throw e, w)
      | Inr u \<Rightarrow>
          doGet ev st u
            (\<lambda>result. case result of
               JArr items \<Rightarrow>
                 (case map_fromJSON (type_rest st) items of
                    Inl e \<Rightarrow> Throw e
                  | Inr xs \<Rightarrow> Resolve (JArr xs))
             | _ \<Rightarrow> Throw TypeError) w)"

definition update_rest :: "env \<Rightarrow> jsval \<Rightarrow> rest_store \<Rightarrow> world \<Rightarrow> jsval outcome \<times> world" where
  "update_rest ev object st w =
     (case dot_uid object of
        Inl e \<Rightarrow> (Throw e, w)
      | Inr uid \<Rightarrow> doPut ev st (singleResourceURI ev st uid) object w)"

definition remove_rest :: "env \<Rightarrow> jsval \<Rightarrow> rest_store \<Rightarrow> world \<Rightarrow> jsval outcome \<times> world" where
  "remove_rest ev k st w = doDelete ev st (singleResourceURI ev st k) w"

definition removeAll_rest :: "env \<Rightarrow> index \<Rightarrow> jsval \<Rightarrow> rest_store \<Rightarrow> world \<Rightarrow> jsval outcome \<times> world" where
  "removeAll_rest ev ix v st w =
     (case multipleResourceURI st ''removeAll'' ix v of
        Inl e \<Rightarrow> (Throw e, w)
      | Inr u \<Rightarrow> doDelete ev st u w)"

definition bulk_rest :: "env \<Rightarrow> 'ty patch \<Rightarrow> rest_store \<Rightarrow> world \<Rightarrow> jsval outcome \<times> world" where
  "bulk_rest ev p st w = doPost ev st (bulkResourceURI st) (toJSON p) w"

section \<open>A client, a store and two responses\<close>

text \<open>
  The client and the store of the REST tests, an environment in which the server gives one
  answer to every request (\<open>fetch\<close> puts the URL of the request into the response), a 404
  answer, and a 200 answer whose body is not JSON.
\<close>

definition getBearerAuthHeader :: "string \<Rightarrow> (string \<times> string) list" where
  "getBearerAuthHeader token = [(''Authorizaton'', ''Bearer '' @ token)]"

definition answering :: "response \<Rightarrow> env" where
  "answering r =
     \<lparr>encodeURIComponent = (\<lambda>v. case v of JNum n \<Rightarrow> decimal (nat n) | JStr s \<Rightarrow> s | _ \<Rightarrow> []),
      JSON_stringify = (\<lambda>v. ''{}''),
      fetch = (\<lambda>req. Resolved (r\<lparr>url_r := url req\<rparr>)),
      debug_log = None\<rparr>"

definition not_found :: response where
  "not_found =
     \<lparr>status = 404, statusText = ''Not Found'', url_r = [], headers_r = [],
      json = JsonRejects, text_r = []\<rparr>"

definition bad_body :: response where
  "bad_body =
     \<lparr>status = 200, statusText = ''OK'', url_r = [], headers_r = [],
      json = JsonRejects, text_r = ''<html>''\<rparr>"

definition TestObject :: jstype where
  "TestObject = \<lparr>fromJSON = (\<lambda>v. Inr v)\<rparr>"

definition test_world :: world where
  "test_world = \<lparr>clients = [Client ''http://127.0.0.1:8666'' [] []], sent = [], warnings = []\<rparr>"

definition test_store :: rest_store where
  "test_store = getStore 0 [] TestObject None"

section \<open>Facts about the heap and the in-memory store\<close>

lemma map_at_upd: "a < length h \<Longrightarrow> map_at (h[a := MapCell m]) a = Some m"
  by (simp add: map_at_def)

lemma map_at_lt: "map_at h a = Some m \<Longrightarrow> a < length h"
  by (simp add: map_at_def split: if_splits)

lemma remove_map_noop:
  "map_at h (idMap s) = Some m \<Longrightarrow> remove_map k s h = (Resolve (JBool False), s, h)"
  by (simp add: remove_map_def)

lemma dot_uid_for_in: "x \<in> set (for_in_names items) \<Longrightarrow> dot_uid x = Inr Undefined"
  by (auto simp: for_in_names_def)

lemma delete_each_strs:
  "\<forall>x \<in> set xs. dot_uid x = Inr Undefined \<Longrightarrow>
   delete_each xs m = Inr (if xs = [] then m else Map_delete m Undefined)"
  by (induction xs arbitrary: m) (auto simp: Map_delete_def delete_idem)

lemma for_in_names_Nil: "for_in_names items = [] \<longleftrightarrow> items = []"
  by (simp add: for_in_names_def)

lemma delete_each_for_in:
  "delete_each (for_in_names items) m = Inr (if items = [] then m else Map_delete m Undefined)"
  using delete_each_strs[of "for_in_names items" m] dot_uid_for_in[of _ items]
  by (simp add: for_in_names_Nil)

lemma map_at_append: "a < length h \<Longrightarrow> map_at (h @ xs) a = map_at h a"
  by (simp add: map_at_def nth_append)

lemma arr_at_alloc: "arr_at (h @ [ArrCell xs]) (length h) = Some xs"
  by (simp add: arr_at_def)

lemma all_map_char:
  "map_at h (idMap s) = Some m \<Longrightarrow>
   all_map s h = (Resolve (length h), s, h @ [ArrCell (Map_values m)])"
  by (simp add: all_map_def alloc_def)

lemma findAll_map_char:
  "map_at h (idMap s) = Some m \<Longrightarrow>
   findAll_map ix v s h =
     (Resolve (Suc (length h)), s,
      h @ [ArrCell (Map_values m), ArrCell (filter (call ix v) (Map_values m))])"
  by (simp add: findAll_map_def all_map_char arr_at_alloc alloc_def)

lemma arr_at_alloc2: "arr_at (h @ [c, ArrCell xs]) (Suc (length h)) = Some xs"
  by (simp add: arr_at_def nth_append)

lemma removeAll_map_char:
  assumes "map_at h (idMap s) = Some m"
  shows "removeAll_map ix v s h =
     (if filter (call ix v) (Map_values m) = []
      then (Resolve (JBool False), s,
            h @ [ArrCell (Map_values m), ArrCell (filter (call ix v) (Map_values m))])
      else (Resolve (JBool True), s,
            (h @ [ArrCell (Map_values m), ArrCell (filter (call ix v) (Map_values m))])
              [idMap s := MapCell (Map_delete m Undefined)]))"
proof -
  have lt: "idMap s < length h" using assms by (rule map_at_lt)
  have m': "map_at (h @ [ArrCell (Map_values m), ArrCell (filter (call ix v) (Map_values m))]) (idMap s) = Some m"
    using lt assms by (simp add: map_at_append)
  show ?thesis
    by (simp add: removeAll_map_def findAll_map_char[OF assms] arr_at_alloc2 m' delete_each_for_in)
qed

lemma update_map_char:
  "dot_uid d = Inr u \<Longrightarrow> map_at h (idMap s) = Some m \<Longrightarrow>
   update_map d s h =
     (Resolve (JBool True), s\<lparr>sorted_flag := sorted_flag s \<and> Map_has m u\<rparr>,
      h[idMap s := MapCell (Map_set m u d)])"
  by (cases "Map_has m u") (simp_all add: update_map_def)

lemma store_char: "Store ty k cmp h =
  (\<lparr>idMap = length h, key = k, comparator = cmp, sorted_flag = True, type = ty\<rparr>, h @ [MapCell []])"
  by (simp add: Store_def alloc_def)

lemma map_at_new: "map_at (h @ [MapCell m]) (length h) = Some m"
  by (simp add: map_at_def)


subsection \<open>Order of the collection\<close>

lemma ordered_delete: "ordered cmp (Map_values m) \<Longrightarrow> ordered cmp (Map_values (Map_delete m k))"
  by (simp add: ordered_def Map_values_def Map_delete_def AList.delete_eq sorted_wrt_map sorted_wrt_filter)

lemma values_update_subset:
  "set (map snd (AList.update u d m)) \<subseteq> insert d (set (map snd m))"
  by (induction m) auto

lemma ordered_update_alike:
  assumes "map_of m u = Some old"
      and "list_all (alike cmp old d) (map snd m)"
      and "ordered cmp (map snd m)"
  shows "ordered cmp (map snd (AList.update u d m))"
  using assms
proof (induction m)
  case Nil
  then show ?case by simp
next
  case (Cons p ps)
  obtain k v where p: "p = (k, v)" by (cases p)
  have below: "\<forall>y \<in> set (map snd ps). cmp v y \<le> 0"
    using Cons.prems(3) by (simp add: ordered_def p)
  have tail: "ordered cmp (map snd ps)"
    using Cons.prems(3) by (simp add: ordered_def p)
  have al: "\<forall>y \<in> set (map snd ps). alike cmp old d y" and alv: "alike cmp old d v"
    using Cons.prems(2) by (simp_all add: p list_all_iff)
  show ?case
  proof (cases "k = u")
    case True
    then have ov: "old = v" using Cons.prems(1) by (simp add: p)
    have "\<forall>y \<in> set (map snd ps). cmp d y \<le> 0"
      using below al unfolding alike_def ov by auto
    then show ?thesis using True tail by (simp add: ordered_def p)
  next
    case False
    then have look: "map_of ps u = Some old" using Cons.prems(1) by (simp add: p)
    have ih: "ordered cmp (map snd (AList.update u d ps))"
      using look al tail by (intro Cons.IH) (simp_all add: list_all_iff)
    have "(u, old) \<in> set ps" using look by (rule map_of_SomeD)
    then have "old \<in> set (map snd ps)" by force
    then have "cmp v old \<le> 0" using below by blast
    then have vd: "cmp v d \<le> 0" using alv by (simp add: alike_def)
    have "\<forall>y \<in> set (map snd (AList.update u d ps)). cmp v y \<le> 0"
    proof
      fix y
      assume "y \<in> set (map snd (AList.update u d ps))"
      then have "y \<in> insert d (set (map snd ps))"
        using values_update_subset[of u d ps] by blast
      then show "cmp v y \<le> 0" using below vd by blast
    qed
    then show ?thesis using False ih by (simp add: ordered_def p)
  qed
qed

lemma step_keeps_order:
  assumes m: "map_at h (idMap s) = Some m"
      and o: "sorted_inv s h"
      and ok: "step_ok c (s, h)"
  shows "(\<exists>m'. map_at (snd (exec c (s, h))) (idMap (fst (exec c (s, h)))) = Some m')
     \<and> sorted_inv (fst (exec c (s, h))) (snd (exec c (s, h)))"
proof -
  have lt: "idMap s < length h" using m by (rule map_at_lt)
  have om: "sorted_flag s \<longrightarrow> ordered (comparator s) (Map_values m)"
    using o m by (simp add: sorted_inv_def)
  show ?thesis
  proof (cases c)
    case (CallFind k)
    then show ?thesis using m o by (simp add: find_map_def Let_def)
  next
    case GetAll
    then show ?thesis using m om lt by (simp add: all_map_char sorted_inv_def map_at_append)
  next
    case (CallFindAll ix v)
    then show ?thesis using m om lt by (simp add: findAll_map_char sorted_inv_def map_at_append)
  next
    case (CallUpdate d)
    show ?thesis
    proof (cases "dot_uid d")
      case (Inl e)
      then show ?thesis using m o CallUpdate by (simp add: update_map_def)
    next
      case (Inr u)
      have "sorted_flag s \<and> Map_has m u \<longrightarrow> ordered (comparator s) (Map_values (Map_set m u d))"
      proof
        assume a: "sorted_flag s \<and> Map_has m u"
        then obtain old where look: "map_of m u = Some old"
          by (auto simp: Map_has_def)
        then have g: "Map_get m u = old" by (simp add: Map_get_def)
        have "list_all (alike (comparator s) old d) (map snd m)"
          using ok CallUpdate Inr m a g by (simp add: Map_values_def)
        moreover have "ordered (comparator s) (map snd m)"
          using om a by (simp add: Map_values_def)
        ultimately show "ordered (comparator s) (Map_values (Map_set m u d))"
          using look by (simp add: Map_values_def Map_set_def ordered_update_alike)
      qed
      then show ?thesis using CallUpdate Inr m lt
        by (simp add: update_map_char sorted_inv_def map_at_upd)
    qed
  next
    case (CallRemove k)
    then show ?thesis using m o by (simp add: remove_map_noop)
  next
    case (CallRemoveAll ix v)
    then show ?thesis using m om lt
      by (simp add: removeAll_map_char sorted_inv_def map_at_append map_at_upd ordered_delete)
  next
    case (CallBulk p)
    obtain r h' where pf: "patch_fn p h (idMap s)
        \<lparr>value_fn = logValue, collectionElementType = type s, sorted_opt = sorted_flag s\<rparr> = (r, h')"
      by (cases "patch_fn p h (idMap s)
        \<lparr>value_fn = logValue, collectionElementType = type s, sorted_opt = sorted_flag s\<rparr>")
    show ?thesis
    proof (cases r)
      case (Inl e)
      then show ?thesis using ok CallBulk pf by simp
    next
      case (Inr a)
      then obtain m' where "map_at h' a = Some m'" and "ordered (comparator s) (Map_values m')"
        using ok CallBulk pf by (auto split: option.splits)
      then show ?thesis using CallBulk pf Inr
        by (cases "dot_length (data p)") (simp_all add: bulk_map_def sorted_inv_def)
    qed
  qed
qed

lemma run_keeps_order:
  assumes "map_at (snd sh) (idMap (fst sh)) = Some m"
      and "sorted_inv (fst sh) (snd sh)"
      and "admissible cs sh"
  shows "sorted_inv (fst (run cs sh)) (snd (run cs sh))"
  using assms
proof (induction cs arbitrary: sh m)
  case Nil
  then show ?case by (simp add: run_def)
next
  case (Cons c cs)
  obtain s h where sh: "sh = (s, h)" by (cases sh)
  have ok: "step_ok c (s, h)" and rest: "admissible cs (exec c (s, h))"
    using Cons.prems(3) sh by simp_all
  from step_keeps_order[of h s m c] Cons.prems(1,2) ok sh
  obtain m' where m': "map_at (snd (exec c (s, h))) (idMap (fst (exec c (s, h)))) = Some m'"
    and o': "sorted_inv (fst (exec c (s, h))) (snd (exec c (s, h)))"
    by auto
  have "sorted_inv (fst (run cs (exec c (s, h)))) (snd (run cs (exec c (s, h))))"
    using m' o' rest by (rule Cons.IH)
  then show ?case by (simp add: run_def sh)
qed

lemma engine_sorted_snapshot:
  "ordered cmp (Map_values m) \<Longrightarrow> engine_sorted cmp (snapshot_patch m)"
  by (simp add: engine_sorted_def snapshot_patch_def map_at_new)

section \<open>The claims on the in-memory store\<close>

text \<open>
  A document stored by \<open>update\<close> is found again under its \<open>uid\<close>, whatever key function
  the store was built with.
\<close>

lemma update_then_find_by_uid:
  assumes "map_at h (idMap s) = Some m" and "dot_uid d = Inr u"
  shows "fst (update_map d s h) = Resolve (JBool True)"
    and "fst (find_map u (fst (snd (update_map d s h))) (snd (snd (update_map d s h)))) = Resolve d"
proof -
  have lt: "idMap s < length h" using assms(1) by (rule map_at_lt)
  have ne: "d \<noteq> Undefined" using assms(2) by auto
  show "fst (update_map d s h) = Resolve (JBool True)"
    by (simp add: update_map_char[OF assms(2) assms(1)])
  show "fst (find_map u (fst (snd (update_map d s h))) (snd (snd (update_map d s h)))) = Resolve d"
    using lt ne
    by (simp add: update_map_char[OF assms(2) assms(1)] find_map_def map_at_upd Map_get_def
        Map_set_def update_conv')
qed

text \<open>
  Claim C1 (round trip through the key function). \<open>update\<close> files the document under
  \<open>object.uid\<close> and never calls the key function of the store. With the store of the
  README, built on \<open>object => object.key\<close>, the document \<open>{key: 1, a: "hello", b: "sailor"}\<close>
  goes under \<open>undefined\<close>, and \<open>find(key(d))\<close>, that is \<open>find(1)\<close>, is rejected with
  DoesNotExist although \<open>update(d)\<close> has just resolved.
\<close>

theorem update_find_key_function:
  "fst (update_map sailor (fst (Store () key_field uid_order []))
          (snd (Store () key_field uid_order [])))
     = Resolve (JBool True)
   \<and> key_field sailor = JNum 1
   \<and> fst (find_map (key_field sailor)
          (fst (run [CallUpdate sailor] (Store () key_field uid_order [])))
          (snd (run [CallUpdate sailor] (Store () key_field uid_order []))))
     = Reject (DoesNotExist (JNum 1) None)"
proof -
  let ?s0 = "\<lparr>idMap = 0, key = key_field, comparator = uid_order, sorted_flag = True, type = ()\<rparr>"
  let ?s1 = "\<lparr>idMap = 0, key = key_field, comparator = uid_order, sorted_flag = False, type = ()\<rparr>"
  have st: "Store () key_field uid_order [] = (?s0, [MapCell []])"
    by (simp add: store_char)
  have u: "dot_uid sailor = Inr Undefined" by (simp add: sailor_def)
  have m0: "map_at [MapCell []] (idMap ?s0) = Some []" by (simp add: map_at_def)
  have up: "update_map sailor ?s0 [MapCell []] =
      (Resolve (JBool True), ?s1, [MapCell [(Undefined, sailor)]])"
    by (simp add: update_map_char[OF u m0] Map_has_def Map_set_def)
  have kf: "key_field sailor = JNum 1" by (simp add: key_field_def sailor_def)
  have fi: "fst (find_map (JNum 1) ?s1 [MapCell [(Undefined, sailor)]])
      = Reject (DoesNotExist (JNum 1) None)"
    by (simp add: find_map_def map_at_def Map_get_def Let_def)
  show ?thesis
    unfolding st by (simp add: run_def up kf fi)
qed

text \<open>A store with the default key and comparator, and the first document of the tests in it.\<close>

lemma store_example:
  "Store () uid_key uid_order [] =
     (\<lparr>idMap = 0, key = uid_key, comparator = uid_order, sorted_flag = True, type = ()\<rparr>,
      [MapCell []])"
  by (simp add: store_char)

lemma update_example:
  "update_map (Simple 1 ''hello'' ''world'')
     \<lparr>idMap = 0, key = uid_key, comparator = uid_order, sorted_flag = True, type = ()\<rparr>
     [MapCell []] =
   (Resolve (JBool True),
    \<lparr>idMap = 0, key = uid_key, comparator = uid_order, sorted_flag = False, type = ()\<rparr>,
    [MapCell [(JNum 1, Simple 1 ''hello'' ''world'')]])"
proof -
  have u: "dot_uid (Simple 1 ''hello'' ''world'') = Inr (JNum 1)" by (simp add: Simple_def)
  have m0: "map_at [MapCell []]
      (idMap \<lparr>idMap = 0, key = uid_key, comparator = uid_order, sorted_flag = True, type = ()\<rparr>)
      = Some []"
    by (simp add: map_at_def)
  show ?thesis
    by (simp add: update_map_char[OF u m0] Map_has_def Map_set_def)
qed

lemma run_example:
  "run [CallUpdate (Simple 1 ''hello'' ''world'')] (Store () uid_key uid_order []) =
   (\<lparr>idMap = 0, key = uid_key, comparator = uid_order, sorted_flag = False, type = ()\<rparr>,
    [MapCell [(JNum 1, Simple 1 ''hello'' ''world'')]])"
  by (simp add: run_def store_example update_example)

lemma find_example:
  "fst (find_map (JNum 1)
     \<lparr>idMap = 0, key = uid_key, comparator = uid_order, sorted_flag = False, type = ()\<rparr>
     (MapCell [(JNum 1, Simple 1 ''hello'' ''world'')] # rest))
   = Resolve (Simple 1 ''hello'' ''world'')"
  by (simp add: find_map_def map_at_def Map_get_def Let_def Simple_def)

text \<open>
  Claim C2 (\<open>remove\<close> deletes a present key and resolves with true). The test of
  \<open>remove\<close> negates the looked-up value before comparing it with \<open>undefined\<close>, so it
  never holds (\<open>remove_map_noop\<close>): with a document under key 1, \<open>remove(1)\<close> resolves
  with false and \<open>find(1)\<close> still resolves with the document.
\<close>

theorem remove_keeps_present_document:
  "fst (remove_map (JNum 1)
          (fst (run [CallUpdate (Simple 1 ''hello'' ''world'')] (Store () uid_key uid_order [])))
          (snd (run [CallUpdate (Simple 1 ''hello'' ''world'')] (Store () uid_key uid_order []))))
     = Resolve (JBool False)
   \<and> fst (find_map (JNum 1)
          (fst (run [CallUpdate (Simple 1 ''hello'' ''world''), CallRemove (JNum 1)]
                  (Store () uid_key uid_order [])))
          (snd (run [CallUpdate (Simple 1 ''hello'' ''world''), CallRemove (JNum 1)]
                  (Store () uid_key uid_order []))))
     = Resolve (Simple 1 ''hello'' ''world'')"
proof -
  let ?s1 = "\<lparr>idMap = 0, key = uid_key, comparator = uid_order, sorted_flag = False, type = ()\<rparr>"
  let ?h1 = "[MapCell [(JNum 1, Simple 1 ''hello'' ''world'')]]"
  have m1: "map_at ?h1 (idMap ?s1) = Some [(JNum 1, Simple 1 ''hello'' ''world'')]"
    by (simp add: map_at_def)
  have rm: "remove_map (JNum 1) ?s1 ?h1 = (Resolve (JBool False), ?s1, ?h1)"
    by (rule remove_map_noop[OF m1])
  have r2: "run [CallUpdate (Simple 1 ''hello'' ''world''), CallRemove (JNum 1)]
      (Store () uid_key uid_order []) = (?s1, ?h1)"
    by (simp add: run_def store_example update_example rm)
  show ?thesis
    unfolding r2 run_example by (simp add: rm find_example)
qed

text \<open>
  Claim C3 (\<open>removeAll\<close> deletes every matching document). The loop runs over the
  property names of the array of matches and deletes the key \<open>undefined\<close> each time
  (\<open>removeAll_map_char\<close>): with the one document matching \<open>byA\<close> for "hello",
  \<open>removeAll(byA, "hello")\<close> resolves with true and the document is still found.
\<close>

theorem removeAll_keeps_matching_document:
  "fst (removeAll_map byA (JStr ''hello'')
          (fst (run [CallUpdate (Simple 1 ''hello'' ''world'')] (Store () uid_key uid_order [])))
          (snd (run [CallUpdate (Simple 1 ''hello'' ''world'')] (Store () uid_key uid_order []))))
     = Resolve (JBool True)
   \<and> call byA (JStr ''hello'') (Simple 1 ''hello'' ''world'')
   \<and> fst (find_map (JNum 1)
          (fst (run [CallUpdate (Simple 1 ''hello'' ''world''), CallRemoveAll byA (JStr ''hello'')]
                  (Store () uid_key uid_order [])))
          (snd (run [CallUpdate (Simple 1 ''hello'' ''world''), CallRemoveAll byA (JStr ''hello'')]
                  (Store () uid_key uid_order []))))
     = Resolve (Simple 1 ''hello'' ''world'')"
proof -
  let ?d = "Simple 1 ''hello'' ''world''"
  let ?s1 = "\<lparr>idMap = 0, key = uid_key, comparator = uid_order, sorted_flag = False, type = ()\<rparr>"
  let ?h1 = "[MapCell [(JNum 1, ?d)]]"
  have m1: "map_at ?h1 (idMap ?s1) = Some [(JNum 1, ?d)]"
    by (simp add: map_at_def)
  have ne: "?d \<noteq> Undefined" by (simp add: Simple_def)
  have hit: "call byA (JStr ''hello'') ?d" by (simp add: byA_def Simple_def)
  have f: "filter (call byA (JStr ''hello'')) (Map_values [(JNum 1, ?d)]) = [?d]"
    using hit by (simp add: Map_values_def)
  have ra: "removeAll_map byA (JStr ''hello'') ?s1 ?h1 =
      (Resolve (JBool True), ?s1, [MapCell [(JNum 1, ?d)], ArrCell [?d], ArrCell [?d]])"
    unfolding removeAll_map_char[OF m1] f by (simp add: Map_delete_def Map_values_def ne)
  have r2: "run [CallUpdate ?d, CallRemoveAll byA (JStr ''hello'')]
      (Store () uid_key uid_order []) = (?s1, [MapCell [(JNum 1, ?d)], ArrCell [?d], ArrCell [?d]])"
    by (simp add: run_def store_example update_example ra)
  show ?thesis
    unfolding r2 run_example by (simp add: ra hit find_example)
qed


text \<open>
  Claim C4 (a patch that fails leaves the collection field alone). When the patch engine
  throws, \<open>bulk\<close> throws the same error and the store has the fields it had, \<open>idMap\<close>
  and the flag among them: the assignment is not reached.
\<close>

theorem bulk_engine_failure:
  assumes "fst (patch_fn p h (idMap s)
             \<lparr>value_fn = logValue, collectionElementType = type s, sorted_opt = sorted_flag s\<rparr>)
           = Inl e"
  shows "fst (bulk_map p s h) = Throw e \<and> fst (snd (bulk_map p s h)) = s"
proof -
  obtain r h' where pf: "patch_fn p h (idMap s)
      \<lparr>value_fn = logValue, collectionElementType = type s, sorted_opt = sorted_flag s\<rparr>
      = (r, h')"
    by (cases "patch_fn p h (idMap s)
      \<lparr>value_fn = logValue, collectionElementType = type s, sorted_opt = sorted_flag s\<rparr>")
  with assms have "r = Inl e" by simp
  with pf show ?thesis by (simp add: bulk_map_def)
qed

theorem bulk_engine_failure_witness:
  "fst (patch_fn failing_patch [MapCell [(JNum 1, Simple 1 ''hello'' ''world'')]] 0
         \<lparr>value_fn = logValue, collectionElementType = (), sorted_opt = False\<rparr>)
     = Inl (Error ''cannot patch'' None)
   \<and> fst (bulk_map failing_patch
        \<lparr>idMap = 0, key = uid_key, comparator = uid_order, sorted_flag = False, type = ()\<rparr>
        [MapCell [(JNum 1, Simple 1 ''hello'' ''world'')]])
     = Throw (Error ''cannot patch'' None)
   \<and> idMap (fst (snd (bulk_map failing_patch
        \<lparr>idMap = 0, key = uid_key, comparator = uid_order, sorted_flag = False, type = ()\<rparr>
        [MapCell [(JNum 1, Simple 1 ''hello'' ''world'')]]))) = 0
   \<and> \<not> sorted_flag (fst (snd (bulk_map failing_patch
        \<lparr>idMap = 0, key = uid_key, comparator = uid_order, sorted_flag = False, type = ()\<rparr>
        [MapCell [(JNum 1, Simple 1 ''hello'' ''world'')]])))"
  using bulk_engine_failure [of failing_patch "[MapCell [(JNum 1, Simple 1 ''hello'' ''world'')]]"
      "\<lparr>idMap = 0, key = uid_key, comparator = uid_order, sorted_flag = False, type = ()\<rparr>"
      "Error ''cannot patch'' None"]
  by (simp add: failing_patch_def)

text \<open>
  For a patch whose \<open>data\<close> is an array of entries and an engine call that returns,
  \<open>bulk\<close> adopts the collection, sets the flag and resolves with the number of entries.
\<close>

lemma bulk_map_entries:
  assumes "patch_fn p h (idMap s)
             \<lparr>value_fn = logValue, collectionElementType = type s, sorted_opt = sorted_flag s\<rparr>
           = (Inr a, h')"
      and "data p = JArr es"
  shows "bulk_map p s h =
     (Resolve (JNum (int (length es))), s\<lparr>idMap := a, sorted_flag := True\<rparr>, h')"
  using assms by (simp add: bulk_map_def)

lemma bulk_map_replace_example:
  "bulk_map (replace_patch (JNum 1) (Simple 1 ''hello'' ''pizza''))
        \<lparr>idMap = 0, key = uid_key, comparator = uid_order, sorted_flag = False, type = ()\<rparr>
        [MapCell [(JNum 1, Simple 1 ''hello'' ''world'')]]
     = (Resolve (JNum 1),
        \<lparr>idMap = 0, key = uid_key, comparator = uid_order, sorted_flag = True, type = ()\<rparr>,
        [MapCell [(JNum 1, Simple 1 ''hello'' ''pizza'')]])"
  by (simp add: bulk_map_def replace_patch_def map_at_def Map_set_def)

text \<open>
  Claim C8 (\<open>bulk\<close> resolves with the number of entries of every patch, the empty one
  included). \<open>bulk\<close> reads \<open>patch.data.length\<close> after it has adopted the collection and
  set the flag. The operation that changes nothing has no \<open>data\<close>: its engine returns
  the Map it was given, the flag is set, and \<open>bulk\<close> throws a TypeError where the claim
  has it resolve with 0.
\<close>

theorem bulk_nop_throws:
  "fst (patch_fn nop_patch
          (snd (run [CallUpdate (Simple 1 ''hello'' ''world'')] (Store () uid_key uid_order [])))
          0 \<lparr>value_fn = logValue, collectionElementType = (), sorted_opt = False\<rparr>)
     = Inr 0
   \<and> fst (bulk_map nop_patch
          (fst (run [CallUpdate (Simple 1 ''hello'' ''world'')] (Store () uid_key uid_order [])))
          (snd (run [CallUpdate (Simple 1 ''hello'' ''world'')] (Store () uid_key uid_order []))))
     = Throw TypeError
   \<and> sorted_flag (fst (snd (bulk_map nop_patch
          (fst (run [CallUpdate (Simple 1 ''hello'' ''world'')] (Store () uid_key uid_order [])))
          (snd (run [CallUpdate (Simple 1 ''hello'' ''world'')] (Store () uid_key uid_order []))))))"
  unfolding run_example by (simp add: bulk_map_def nop_patch_def)

subsection \<open>Reading\<close>











subsection \<open>The flag and the order\<close>

lemma bulk_snapshot:
  "bulk_map (snapshot_patch m) s h =
     (Resolve (JNum (int (length m))), s\<lparr>idMap := length h, sorted_flag := True\<rparr>,
      h @ [MapCell m])"
  by (simp add: bulk_map_def snapshot_patch_def)

text \<open>
  Claim C5 (the flag implies the order), for admissible sequences of calls: those in which
  every call of the patch engine made by \<open>bulk\<close> returns a Map in the order of the
  comparator, and every \<open>update\<close> of a present key under a set flag stores a document
  that the comparator compares with the stored documents as it compares the one it
  replaces. After such a sequence on a new store the flag is set only when the values of
  the Map are in the order of the comparator. \<open>update\<close> of a document with a readable
  \<open>uid\<close> leaves the flag set exactly when it was set and the key was present; \<open>bulk\<close>
  that resolves sets it.
\<close>

theorem sorted_flag_invariant:
  fixes cs :: "'ty call list"
  assumes "admissible cs (Store ty k cmp h0)"
  shows "sorted_inv (fst (run cs (Store ty k cmp h0))) (snd (run cs (Store ty k cmp h0)))
   \<and> (\<forall>d (s :: 'ty store) h u m. dot_uid d = Inr u \<longrightarrow> map_at h (idMap s) = Some m \<longrightarrow>
         sorted_flag (fst (snd (update_map d s h))) = (sorted_flag s \<and> Map_has m u))
   \<and> (\<forall>(p :: 'ty patch) s h n. fst (bulk_map p s h) = Resolve n \<longrightarrow>
         sorted_flag (fst (snd (bulk_map p s h))))"
proof (intro conjI allI impI)
  have m0: "map_at (snd (Store ty k cmp h0)) (idMap (fst (Store ty k cmp h0))) = Some []"
    by (simp add: store_char map_at_new)
  have o0: "sorted_inv (fst (Store ty k cmp h0)) (snd (Store ty k cmp h0))"
    by (simp add: store_char sorted_inv_def map_at_new ordered_def Map_values_def)
  show "sorted_inv (fst (run cs (Store ty k cmp h0))) (snd (run cs (Store ty k cmp h0)))"
    using m0 o0 assms by (rule run_keeps_order)
next
  fix d and s :: "'ty store" and h u m
  assume "dot_uid d = Inr u" and "map_at h (idMap s) = Some m"
  then show "sorted_flag (fst (snd (update_map d s h))) = (sorted_flag s \<and> Map_has m u)"
    by (simp add: update_map_char)
next
  fix p :: "'ty patch" and s h n
  assume r: "fst (bulk_map p s h) = Resolve n"
  obtain x h' where pf: "patch_fn p h (idMap s)
      \<lparr>value_fn = logValue, collectionElementType = type s, sorted_opt = sorted_flag s\<rparr>
      = (x, h')"
    by (cases "patch_fn p h (idMap s)
      \<lparr>value_fn = logValue, collectionElementType = type s, sorted_opt = sorted_flag s\<rparr>")
  show "sorted_flag (fst (snd (bulk_map p s h)))"
    using r pf by (cases x; cases "dot_length (data p)") (simp_all add: bulk_map_def)
qed

lemma dot_uid_Simple: "dot_uid (Simple u a b) = Inr (JNum u)"
  by (simp add: Simple_def)

lemma uid_order_Simple:
  "uid_order (Simple u a b) (Simple v a' b') = (if u < v then - 1 else if v < u then 1 else 0)"
  by (simp add: uid_order_def defaultComparator_def uid_key_def less_num_def Simple_def)

lemma rank_order_examples:
  "rank_order (Ranked 1 1) (Ranked 2 2) = - 1"
  "rank_order (Ranked 1 5) (Ranked 2 2) = 1"
  by (simp_all add: rank_order_def defaultComparator_def rank_key_def less_num_def Ranked_def)

text \<open>
  A sequence of the tests: two documents are stored, a patch replaces the first in the Map
  of the store, and the second is stored again with another field changed.
\<close>

lemma test_sequence:
  fixes s0 sF :: "unit store"
  defines "s0 \<equiv> \<lparr>idMap = 0, key = uid_key, comparator = uid_order, sorted_flag = True, type = ()\<rparr>"
      and "sF \<equiv> \<lparr>idMap = 0, key = uid_key, comparator = uid_order, sorted_flag = False, type = ()\<rparr>"
  shows "exec (CallUpdate (Simple 1 ''hello'' ''world'')) (s0, [MapCell []])
           = (sF, [MapCell [(JNum 1, Simple 1 ''hello'' ''world'')]])"
    and "exec (CallUpdate (Simple 2 ''hello'' ''friend''))
             (sF, [MapCell [(JNum 1, Simple 1 ''hello'' ''world'')]])
           = (sF, [MapCell [(JNum 1, Simple 1 ''hello'' ''world''),
                            (JNum 2, Simple 2 ''hello'' ''friend'')]])"
    and "exec (CallBulk (replace_patch (JNum 1) (Simple 1 ''hello'' ''pizza'')))
             (sF, [MapCell [(JNum 1, Simple 1 ''hello'' ''world''),
                            (JNum 2, Simple 2 ''hello'' ''friend'')]])
           = (s0, [MapCell [(JNum 1, Simple 1 ''hello'' ''pizza''),
                            (JNum 2, Simple 2 ''hello'' ''friend'')]])"
    and "exec (CallUpdate (Simple 2 ''goodbye'' ''friend''))
             (s0, [MapCell [(JNum 1, Simple 1 ''hello'' ''pizza''),
                            (JNum 2, Simple 2 ''hello'' ''friend'')]])
           = (s0, [MapCell [(JNum 1, Simple 1 ''hello'' ''pizza''),
                            (JNum 2, Simple 2 ''goodbye'' ''friend'')]])"
    and "step_ok (CallUpdate (Simple 1 ''hello'' ''world'')) (s0, [MapCell []])"
    and "step_ok (CallUpdate (Simple 2 ''hello'' ''friend''))
             (sF, [MapCell [(JNum 1, Simple 1 ''hello'' ''world'')]])"
    and "step_ok (CallBulk (replace_patch (JNum 1) (Simple 1 ''hello'' ''pizza'')))
             (sF, [MapCell [(JNum 1, Simple 1 ''hello'' ''world''),
                            (JNum 2, Simple 2 ''hello'' ''friend'')]])"
    and "step_ok (CallUpdate (Simple 2 ''goodbye'' ''friend''))
             (s0, [MapCell [(JNum 1, Simple 1 ''hello'' ''pizza''),
                            (JNum 2, Simple 2 ''hello'' ''friend'')]])"
  unfolding s0_def sF_def
  by (simp_all add: update_map_def bulk_map_def replace_patch_def dot_uid_Simple map_at_def
      Map_has_def Map_set_def Map_get_def Map_values_def ordered_def alike_def uid_order_Simple)

theorem sorted_flag_invariant_witness:
  "admissible
     [CallUpdate (Simple 1 ''hello'' ''world''), CallUpdate (Simple 2 ''hello'' ''friend''),
      CallBulk (replace_patch (JNum 1) (Simple 1 ''hello'' ''pizza'')),
      CallUpdate (Simple 2 ''goodbye'' ''friend'')]
     (Store () uid_key uid_order [])
   \<and> sorted_flag (fst (run
     [CallUpdate (Simple 1 ''hello'' ''world''), CallUpdate (Simple 2 ''hello'' ''friend''),
      CallBulk (replace_patch (JNum 1) (Simple 1 ''hello'' ''pizza'')),
      CallUpdate (Simple 2 ''goodbye'' ''friend'')]
     (Store () uid_key uid_order [])))
   \<and> sorted_inv
     (fst (run
       [CallUpdate (Simple 1 ''hello'' ''world''), CallUpdate (Simple 2 ''hello'' ''friend''),
        CallBulk (replace_patch (JNum 1) (Simple 1 ''hello'' ''pizza'')),
        CallUpdate (Simple 2 ''goodbye'' ''friend'')]
       (Store () uid_key uid_order [])))
     (snd (run
       [CallUpdate (Simple 1 ''hello'' ''world''), CallUpdate (Simple 2 ''hello'' ''friend''),
        CallBulk (replace_patch (JNum 1) (Simple 1 ''hello'' ''pizza'')),
        CallUpdate (Simple 2 ''goodbye'' ''friend'')]
       (Store () uid_key uid_order [])))"
proof -
  let ?cs = "[CallUpdate (Simple 1 ''hello'' ''world''), CallUpdate (Simple 2 ''hello'' ''friend''),
      CallBulk (replace_patch (JNum 1) (Simple 1 ''hello'' ''pizza'')),
      CallUpdate (Simple 2 ''goodbye'' ''friend'')]"
  have ad: "admissible ?cs (Store () uid_key uid_order [])"
    by (simp add: store_char test_sequence del: exec.simps step_ok.simps)
  have fl: "sorted_flag (fst (run ?cs (Store () uid_key uid_order [])))"
    by (simp add: run_def store_char test_sequence del: exec.simps)
  show ?thesis
    using sorted_flag_invariant [OF ad] ad fl by blast
qed

lemma run_bulk_update:
  assumes u: "dot_uid d = Inr k1"
  shows "run [CallBulk (snapshot_patch [(k1, d1), (k2, d2)]), CallUpdate d] (Store () kf cmp []) =
     (\<lparr>idMap = Suc 0, key = kf, comparator = cmp, sorted_flag = True, type = ()\<rparr>,
      [MapCell [], MapCell [(k1, d), (k2, d2)]])"
proof -
  let ?s1 = "\<lparr>idMap = Suc 0, key = kf, comparator = cmp, sorted_flag = True, type = ()\<rparr>"
  let ?h1 = "[MapCell [], MapCell [(k1, d1), (k2, d2)]]"
  have m: "map_at ?h1 (idMap ?s1) = Some [(k1, d1), (k2, d2)]"
    by (simp add: map_at_def)
  have up: "update_map d ?s1 ?h1 = (Resolve (JBool True), ?s1, [MapCell [], MapCell [(k1, d), (k2, d2)]])"
    unfolding update_map_char[OF u m] by (simp add: Map_has_def Map_set_def)
  have bu: "bulk_map (snapshot_patch [(k1, d1), (k2, d2)])
      \<lparr>idMap = 0, key = kf, comparator = cmp, sorted_flag = True, type = ()\<rparr> [MapCell []]
      = (Resolve (JNum 2), ?s1, ?h1)"
    by (simp add: bulk_snapshot)
  show ?thesis
    unfolding run_def store_char by (simp add: bu up)
qed

text \<open>
  With a comparator on another field the claim fails: the engine hands back two documents
  in the order of their rank, \<open>update\<close> replaces the first by one of rank 5 under the same
  key, the flag stays set and the values are out of order.
\<close>

theorem sorted_flag_other_comparator:
  "engine_sorted rank_order (snapshot_patch [(JNum 1, Ranked 1 1), (JNum 2, Ranked 2 2)])
   \<and> \<not> sorted_inv
        (fst (run
          [CallBulk (snapshot_patch [(JNum 1, Ranked 1 1), (JNum 2, Ranked 2 2)]),
           CallUpdate (Ranked 1 5)]
          (Store () uid_key rank_order [])))
        (snd (run
          [CallBulk (snapshot_patch [(JNum 1, Ranked 1 1), (JNum 2, Ranked 2 2)]),
           CallUpdate (Ranked 1 5)]
          (Store () uid_key rank_order [])))"
proof -
  let ?m = "[(JNum 1, Ranked 1 1), (JNum 2, Ranked 2 2)]"
  have om: "ordered rank_order (Map_values ?m)"
    by (simp add: ordered_def Map_values_def rank_order_examples)
  have es: "engine_sorted rank_order (snapshot_patch ?m)"
    using om by (rule engine_sorted_snapshot)
  have u: "dot_uid (Ranked 1 5) = Inr (JNum 1)" by (simp add: Ranked_def)
  have "\<not> sorted_inv
      \<lparr>idMap = Suc 0, key = uid_key, comparator = rank_order, sorted_flag = True, type = ()\<rparr>
      [MapCell [], MapCell [(JNum 1, Ranked 1 5), (JNum 2, Ranked 2 2)]]"
    by (simp add: sorted_inv_def map_at_def ordered_def Map_values_def rank_order_examples)
  then show ?thesis
    using es by (simp add: run_bulk_update[OF u])
qed

section \<open>The claims on the REST store\<close>


lemma checkStatus_200_rejects:
  "status r = 200 \<Longrightarrow> json r = JsonRejects \<Longrightarrow> checkStatus r = (Reject SyntaxError, [])"
  by (simp add: checkStatus_def)

lemma checkStatus_200_throws:
  "status r = 200 \<Longrightarrow> json r = JsonThrows \<Longrightarrow>
   checkStatus r =
     (Throw (Error ''unknown response from server'' None),
      [[''ServiceClient.checkStatus - couldn't parse'', text_r r]])"
  by (simp add: checkStatus_def)

lemma doGet_char:
  "client st < length (clients w) \<Longrightarrow> fetch ev (getGetRequest (clients w ! client st) u) = Resolved r \<Longrightarrow>
   doGet ev st u rm w =
     (unsettle (then_p (settle (fst (checkStatus r))) rm),
      w\<lparr>sent := sent w @ [getGetRequest (clients w ! client st) u],
        warnings := warnings w @ snd (checkStatus r)\<rparr>)"
  by (simp add: doGet_def fetch_with_def then_checkStatus_def)


lemma test_client: "client test_store < length (clients test_world)"
  by (simp add: test_store_def test_world_def getStore_def Store_rest_def)

lemma answering_fetch: "fetch (answering r) req = Resolved (r\<lparr>url_r := url req\<rparr>)"
  by (simp add: answering_def)




text \<open>
  Claim C7 (a 200 response whose body is not JSON). \<open>response.json()\<close> reports a body
  it cannot parse by rejecting the promise it returns, which the \<open>try\<close>/\<open>catch\<close> of
  \<open>checkStatus\<close> does not see: \<open>find\<close> is rejected with the SyntaxError of the
  parser, nothing is written to the console and the error "unknown response from server"
  is never made (it is only when the call itself throws, \<open>checkStatus_200_throws\<close>).
\<close>

theorem unparsable_body_not_logged:
  "fst (find_rest (answering bad_body) (JNum 1) test_store test_world) = Reject SyntaxError
   \<and> warnings (snd (find_rest (answering bad_body) (JNum 1) test_store test_world)) = []"
proof -
  let ?req = "getGetRequest (clients test_world ! client test_store)
      (singleResourceURI (answering bad_body) test_store (JNum 1))"
  have s: "status (bad_body\<lparr>url_r := url ?req\<rparr>) = 200"
    and j: "json (bad_body\<lparr>url_r := url ?req\<rparr>) = JsonRejects"
    by (simp_all add: bad_body_def)
  have w: "warnings test_world = []" by (simp add: test_world_def)
  show ?thesis
    by (simp add: find_rest_def doGet_char[OF test_client answering_fetch]
        checkStatus_200_rejects[OF s j] settle_def then_p_def unsettle_def w)
qed

subsection \<open>Headers\<close>

lemma Object_assign_lookup:
  "map_of (Object_assign target source) = map_of target ++ map_of (rev source)"
proof (induction source arbitrary: target)
  case Nil
  then show ?case by (simp add: Object_assign_def)
next
  case (Cons p ps)
  obtain k v where p: "p = (k, v)" by (cases p)
  have "map_of (Object_assign target (p # ps)) = map_of (Object_assign (AList.update k v target) ps)"
    by (simp add: Object_assign_def p)
  also have "\<dots> = map_of (AList.update k v target) ++ map_of (rev ps)"
    by (rule Cons.IH)
  also have "\<dots> = map_of target ++ map_of (rev (p # ps))"
    by (simp add: p update_conv' map_add_def fun_eq_iff split: option.splits)
  finally show ?case .
qed

lemma headers_addHeaders: "map_of (addHeaders c req) ''headers'' = Some (PHeaders (headers c))"
  by (simp add: addHeaders_def update_conv')

lemma headers_addBody: "map_of (addBody ev req b) ''headers'' = map_of req ''headers''"
  by (simp add: addBody_def update_conv')

lemma client_after_updateHeaders:
  "a < length (clients w) \<Longrightarrow>
   headers (clients (call_updateHeaders a hs w) ! a) = Object_assign (headers (clients w ! a)) hs"
  by (simp add: call_updateHeaders_def updateHeaders_def)

lemma clients_length_updateHeaders:
  "length (clients (call_updateHeaders a hs w)) = length (clients w)"
  by (simp add: call_updateHeaders_def)

lemma sent_updateHeaders: "sent (call_updateHeaders a hs w) = sent w"
  by (simp add: call_updateHeaders_def)

lemma sent_fetch_with: "sent (snd (fetch_with ev req w)) = sent w @ [req]"
  by (simp add: fetch_with_def split: prod.splits)

lemma client_getStore: "client (getStore a ep ty im) = a"
  by (simp add: getStore_def Store_rest_def)

lemma sent_doGet:
  "client st < length (clients w) \<Longrightarrow>
   sent (snd (doGet ev st u rm w)) = sent w @ [getGetRequest (clients w ! client st) u]"
  using sent_fetch_with[of ev "getGetRequest (clients w ! client st) u" w]
  by (simp add: doGet_def Let_def case_prod_beta)

lemma sent_doPost:
  "client st < length (clients w) \<Longrightarrow>
   sent (snd (doPost ev st u ob w)) = sent w @ [getPostRequest ev (clients w ! client st) u ob]"
  using sent_fetch_with[of ev "getPostRequest ev (clients w ! client st) u ob" w]
  by (simp add: doPost_def Let_def case_prod_beta)

lemma sent_doPut:
  "client st < length (clients w) \<Longrightarrow>
   sent (snd (doPut ev st u ob w)) = sent w @ [getPutRequest ev (clients w ! client st) u ob]"
  using sent_fetch_with[of ev "getPutRequest ev (clients w ! client st) u ob" w]
  by (simp add: doPut_def Let_def case_prod_beta)

lemma sent_doDelete:
  "client st < length (clients w) \<Longrightarrow> debug_log ev = None \<Longrightarrow>
   sent (snd (doDelete ev st u w)) = sent w @ [getDeleteRequest (clients w ! client st) u]"
  using sent_fetch_with[of ev "getDeleteRequest (clients w ! client st) u" w]
  by (simp add: doDelete_def Let_def case_prod_beta)

text \<open>
  Claim C9 (headers are read when the request is built). After \<open>updateHeaders(hs)\<close> on
  a client, the request that a store of this client gives to \<open>fetch\<close>, for GET, POST,
  PUT and DELETE alike, carries the headers the client had before with \<open>hs\<close> assigned
  over them; the store may have been built before the call. A header of \<open>hs\<close> overrides
  the one of the same name.
\<close>

theorem updateHeaders_reaches_requests:
  assumes "a < length (clients w)"
  shows
   "(\<exists>req. sent (snd (doGet ev (getStore a ep ty im) u rm (call_updateHeaders a hs w)))
             = sent w @ [req]
         \<and> map_of (init req) ''headers''
             = Some (PHeaders (Object_assign (headers (clients w ! a)) hs)))
    \<and> (\<exists>req. sent (snd (doPost ev (getStore a ep ty im) u ob (call_updateHeaders a hs w)))
             = sent w @ [req]
         \<and> map_of (init req) ''headers''
             = Some (PHeaders (Object_assign (headers (clients w ! a)) hs)))
    \<and> (\<exists>req. sent (snd (doPut ev (getStore a ep ty im) u ob (call_updateHeaders a hs w)))
             = sent w @ [req]
         \<and> map_of (init req) ''headers''
             = Some (PHeaders (Object_assign (headers (clients w ! a)) hs)))
    \<and> (debug_log ev = None \<longrightarrow>
        (\<exists>req. sent (snd (doDelete ev (getStore a ep ty im) u (call_updateHeaders a hs w)))
             = sent w @ [req]
         \<and> map_of (init req) ''headers''
             = Some (PHeaders (Object_assign (headers (clients w ! a)) hs))))
    \<and> map_of (Object_assign (headers (clients w ! a)) hs)
        = map_of (headers (clients w ! a)) ++ map_of (rev hs)"
proof -
  let ?w = "call_updateHeaders a hs w"
  let ?st = "getStore a ep ty im"
  have lt: "client ?st < length (clients ?w)"
    using assms by (simp add: client_getStore clients_length_updateHeaders)
  have hd: "headers (clients ?w ! client ?st) = Object_assign (headers (clients w ! a)) hs"
    using assms by (simp add: client_getStore client_after_updateHeaders)
  have g: "map_of (init (getGetRequest (clients ?w ! client ?st) u)) ''headers''
      = Some (PHeaders (Object_assign (headers (clients w ! a)) hs))"
    by (simp add: getGetRequest_def headers_addHeaders hd)
  have po: "map_of (init (getPostRequest ev (clients ?w ! client ?st) u ob)) ''headers''
      = Some (PHeaders (Object_assign (headers (clients w ! a)) hs))"
    by (simp add: getPostRequest_def headers_addBody headers_addHeaders hd)
  have pu: "map_of (init (getPutRequest ev (clients ?w ! client ?st) u ob)) ''headers''
      = Some (PHeaders (Object_assign (headers (clients w ! a)) hs))"
    by (simp add: getPutRequest_def headers_addBody headers_addHeaders hd)
  have de: "map_of (init (getDeleteRequest (clients ?w ! client ?st) u)) ''headers''
      = Some (PHeaders (Object_assign (headers (clients w ! a)) hs))"
    by (simp add: getDeleteRequest_def headers_addHeaders hd)
  show ?thesis
    using g po pu de sent_doGet[OF lt, of ev u rm] sent_doPost[OF lt, of ev u ob]
      sent_doPut[OF lt, of ev u ob] sent_doDelete[OF lt, of ev u]
    by (simp add: sent_updateHeaders Object_assign_lookup)
qed


theorem updateHeaders_reaches_requests_witness:
  "0 < length (clients test_world)
   \<and> map_of (init (last (sent (snd
         (find_rest (answering not_found) (JNum 1) test_store
            (call_updateHeaders 0 (getBearerAuthHeader ''token'') test_world))))))
       ''headers''
     = Some (PHeaders [(''Content-Type'', ''application/json''),
                       (''Authorizaton'', ''Bearer token'')])"
proof -
  let ?ev = "answering not_found"
  let ?hs = "getBearerAuthHeader ''token''"
  let ?u = "singleResourceURI ?ev test_store (JNum 1)"
  let ?rm = "\<lambda>result. case fromJSON (type_rest test_store) result of
      Inl e \<Rightarrow> Throw e | Inr x \<Rightarrow> Resolve x"
  have lt: "0 < length (clients test_world)" by (simp add: test_world_def)
  have merged: "Object_assign (headers (clients test_world ! 0)) ?hs
      = [(''Content-Type'', ''application/json''), (''Authorizaton'', ''Bearer token'')]"
    by (simp add: test_world_def Client_def Object_assign_def DEFAULT_HEADERS_def
        getBearerAuthHeader_def)
  from updateHeaders_reaches_requests [OF lt, of ?ev "[]" TestObject None ?u ?rm ?hs]
  obtain req where
    s: "sent (snd (doGet ?ev (getStore 0 [] TestObject None) ?u ?rm
          (call_updateHeaders 0 ?hs test_world))) = sent test_world @ [req]"
    and h: "map_of (init req) ''headers''
          = Some (PHeaders (Object_assign (headers (clients test_world ! 0)) ?hs))"
    by blast
  have "last (sent (snd (find_rest ?ev (JNum 1) test_store
          (call_updateHeaders 0 ?hs test_world)))) = req"
    using s by (simp add: find_rest_def test_store_def)
  then show ?thesis
    using h lt by (simp add: merged)
qed

end
